theory Spec2Isabelle
  imports Main "HOL-Library.Word"
begin

section \<open>Execution environment (pkg/handlers/ServiceHandler.go)\<close>

text \<open>
  \<^verbatim>\<open>net.IP\<close> is a byte slice. The two callback fields hold function values; the
  record is polymorphic in their types, since nothing below calls them.
\<close>

type_synonym IP = "8 word list"

record ('oh, 'eh) ExecutionEnvironment =
  Binary :: string
  SudoMethod :: string
  Workdir :: string
  ListenAddress :: IP
  ServiceAddress :: IP
  DNSAddress :: IP
  OutputHandler :: 'oh
  ExitHandler :: 'eh
  EtcdClientPort :: int
  EtcdPeerPort :: int
  KubeApiPort :: int
  KubeNodeApiPort :: int
  KubeControllerManagerPort :: int
  KubeletHealthPort :: int
  KubeProxyHealthPort :: int
  KubeProxyMetricsPort :: int
  KubeSchedulerHealthPort :: int
  KubeSchedulerMetricsPort :: int

text \<open>
  \<^verbatim>\<open>func (e *ExecutionEnvironment) CopyInformationFromBase(o *ExecutionEnvironment)\<close>:
  fourteen assignments, in the order of the source. The receiver is passed in and the
  updated receiver is returned; the base is only read.
\<close>

definition CopyInformationFromBase ::
  "('oh, 'eh) ExecutionEnvironment \<Rightarrow> ('oh, 'eh) ExecutionEnvironment \<Rightarrow> ('oh, 'eh) ExecutionEnvironment"
where
  "CopyInformationFromBase e b =
     e\<lparr> EtcdClientPort := EtcdClientPort b,
        EtcdPeerPort := EtcdPeerPort b,
        KubeApiPort := KubeApiPort b,
        KubeNodeApiPort := KubeNodeApiPort b,
        KubeControllerManagerPort := KubeControllerManagerPort b,
        KubeletHealthPort := KubeletHealthPort b,
        KubeProxyHealthPort := KubeProxyHealthPort b,
        KubeProxyMetricsPort := KubeProxyMetricsPort b,
        KubeSchedulerHealthPort := KubeSchedulerHealthPort b,
        KubeSchedulerMetricsPort := KubeSchedulerMetricsPort b,
        ListenAddress := ListenAddress b,
        ServiceAddress := ServiceAddress b,
        DNSAddress := DNSAddress b,
        SudoMethod := SudoMethod b \<rparr>"


section \<open>The orchestrator's state (cmd/microkubed/cmd/Microkubed.go)\<close>

text \<open>
  \<^verbatim>\<open>handlers.ServiceHandler\<close> is an interface; the orchestrator only ever holds the six
  handlers its constructors build, so the interface values are a closed datatype.
\<close>

datatype ServiceHandler =
    EtcdH | KubeAPIServerH | ControllerManagerH | KubeSchedulerH | KubeletH | KubeProxyH

record HealthMessage =
  IsHealthy :: bool
  Error :: "string option"

text \<open>A logrus entry: the message and the fields attached with WithField(s)/WithError.\<close>

datatype field = FStr string | FInt int | FBool bool | FErr "string option"

datatype logEntry = LogEntry (message: string) (fields: "(string \<times> field) list")

text \<open>
  The effects of the orchestrator on the outside world, recorded in the order in which
  the code performs them.
\<close>

datatype action =
    CreateDirectories
  | CreateOrLoadCertificates
  | FindBinaries
  | Construct ServiceHandler
  | StartProc ServiceHandler
  | Sleep nat
  | Probe ServiceHandler
  | Stop ServiceHandler
  | CreateClientKubeconfig
  | NewKubeClient
  | WaitForNode
  | SignalNotify
  | EnableForever ServiceHandler
  | StartServices
  | PrintInfoMessage
  | SdNotifyReady
  | DrainNode
  | SdNotifyStopping

record serviceEntry =
  exitChan :: "bool list"
  healthChan :: "HealthMessage list"
  handler :: ServiceHandler
  name :: string

record Microkubed =
  gracefulTerminationMode :: bool
  serviceHandlers :: "ServiceHandler list"
  serviceList :: "serviceEntry list"
  trace :: "action list"

type_synonym abort = "logEntry \<times> Microkubed"

text \<open>
  The function \<^verbatim>\<open>Run\<close> registers with \<^verbatim>\<open>log.RegisterExitHandler\<close>: logrus runs it inside
  every \<^verbatim>\<open>Fatal\<close>, before \<^verbatim>\<open>os.Exit(1)\<close>.
\<close>

definition exitHook :: "Microkubed \<Rightarrow> Microkubed" where
  "exitHook m =
     (if \<not> gracefulTerminationMode m
      then m\<lparr>trace := trace m @ map Stop (serviceHandlers m)\<rparr>
      else m)"

text \<open>\<^verbatim>\<open>log.Fatal\<close>: the program ends; the entry and the final state are the result.\<close>

definition logFatal :: "logEntry \<Rightarrow> Microkubed \<Rightarrow> abort + 'a" where
  "logFatal e m = Inl (e, exitHook m)"


subsection \<open>Steady-state monitor\<close>

text \<open>
  \<^verbatim>\<open>checkService\<close> loops forever over a \<^verbatim>\<open>select\<close> on the entry's two channels. The
  model consumes a finite prefix of what the two channels deliver, in the order the
  \<^verbatim>\<open>select\<close> takes it: \<open>Inr c\<close> is the monitor still running with \<^verbatim>\<open>unhealthyCount = c\<close>,
  \<open>Inl\<close> is the program ended by \<^verbatim>\<open>log.Fatal\<close>. The flag is read from the orchestrator;
  no code writes it once monitors run.
\<close>

datatype chanEvent = ExitEv bool | HealthEv HealthMessage

fun checkService_loop :: "Microkubed \<Rightarrow> serviceEntry \<Rightarrow> int \<Rightarrow> chanEvent list \<Rightarrow> abort + int" where
  "checkService_loop m h unhealthyCount [] = Inr unhealthyCount"
| "checkService_loop m h unhealthyCount (ExitEv s # evs) =
     (if \<not> gracefulTerminationMode m
      then logFatal (LogEntry (''Service '' @ name h @ '' exitted, aborting!'') []) m
      else checkService_loop m h unhealthyCount evs)"
| "checkService_loop m h unhealthyCount (HealthEv msg # evs) =
     (if \<not> IsHealthy msg
      then (let unhealthyCount' = unhealthyCount + 1 in
            if unhealthyCount' = 10
            then logFatal (LogEntry ''Too many failed health checks, aborting!''
                   [(''app'', FStr (name h)), (''count'', FInt unhealthyCount')]) m
            else checkService_loop m h unhealthyCount' evs)
      else checkService_loop m h 0 evs)"

definition checkService :: "Microkubed \<Rightarrow> serviceEntry \<Rightarrow> chanEvent list \<Rightarrow> abort + int" where
  "checkService m h evs = checkService_loop m h 0 evs"


subsection \<open>What the orchestrator's collaborators answer\<close>

text \<open>
  The handlers' constructors, their \<^verbatim>\<open>Start\<close> and \<^verbatim>\<open>EnableHealthChecks\<close>, the PKI and
  binary look-up and the cluster client are outside the orchestrator. Their answers are
  parameters: an error is \<open>Some\<close> text, \<^verbatim>\<open>nil\<close> is \<open>None\<close>, and \<open>probes i\<close> is the message
  the \<open>i\<close>-th one-shot health check writes to the health channel.
\<close>

text \<open>
  The signals the operating system can send to the program: \<^verbatim>\<open>os.Interrupt\<close> (SIGINT),
  \<^verbatim>\<open>os.Kill\<close> (SIGKILL) and the termination signal SIGTERM.
\<close>

datatype signal = Interrupt | Kill | Terminate

record svcEnv =
  constructErr :: "string option"
  startErr :: "string option"
  probes :: "nat \<Rightarrow> HealthMessage"

record environment =
  dirsFatal :: "logEntry option"
  credErr :: "string option"
  etcdBinErr :: "string option"
  hyperkubeBinErr :: "string option"
  kubeconfigStatErr :: bool
  kubeconfigErr :: "string option"
  kubeClientErr :: "string option"
  svc :: "ServiceHandler \<Rightarrow> svcEnv"
  signalAfter :: "(signal \<times> nat) option"
  monitorEnds :: "(nat \<times> nat \<times> chanEvent list) option"

text \<open>Sequencing of steps that may end the program.\<close>

definition andThen :: "abort + 'a \<Rightarrow> ('a \<Rightarrow> abort + 'b) \<Rightarrow> abort + 'b" where
  "andThen r f = (case r of Inl a \<Rightarrow> Inl a | Inr x \<Rightarrow> f x)"

definition act :: "action list \<Rightarrow> Microkubed \<Rightarrow> Microkubed" where
  "act as m = m\<lparr>trace := trace m @ as\<rparr>"


subsection \<open>startService\<close>

text \<open>
  The retry loop of \<^verbatim>\<open>startService\<close>:
  \<^verbatim>\<open>for retries := 0; retries < 8 && !msg.IsHealthy; retries++ { Sleep(1s); probe; msg = <-healthChan }\<close>.
\<close>

function healthGate ::
  "ServiceHandler \<Rightarrow> (nat \<Rightarrow> HealthMessage) \<Rightarrow> nat \<Rightarrow> HealthMessage \<Rightarrow> action list
     \<Rightarrow> HealthMessage \<times> action list"
where
  "healthGate h pr retries msg tr =
     (if retries < 8 \<and> \<not> IsHealthy msg
      then healthGate h pr (retries + 1) (pr retries) (tr @ [Sleep 1, Probe h])
      else (msg, tr))"
  by pat_completeness auto
termination
  by (relation "measure (\<lambda>(h, pr, retries, msg, tr). 8 - retries)") auto

declare healthGate.simps [simp del]

text \<open>
  A \<^verbatim>\<open>serviceConstructor\<close> is a closure returning a handler and an error; what it returns
  is all the orchestrator sees of it.
\<close>

type_synonym serviceConstructor = "ServiceHandler \<times> string option"

text \<open>
  The \<^verbatim>\<open>exitHandler\<close> closure built by \<^verbatim>\<open>startService\<close>. It runs on the process
  handle's task whenever the service's process ends; \<open>stateChan\<close> is the content of the
  buffered channel it writes to.
\<close>

definition exitHandler ::
  "string \<Rightarrow> bool \<Rightarrow> string option \<Rightarrow> Microkubed \<Rightarrow> bool list \<Rightarrow> abort + bool list"
where
  "exitHandler name' success exitError m stateChan =
     (if \<not> gracefulTerminationMode m
      then logFatal (LogEntry ''App exitted during startup phase, bailing out _now_''
             [(''success'', FBool success), (''app'', FStr name'), (''error'', FErr exitError)]) m
      else Inr (stateChan @ [success]))"

definition startService ::
  "string \<Rightarrow> serviceConstructor \<Rightarrow> svcEnv \<Rightarrow> Microkubed
     \<Rightarrow> abort + ((ServiceHandler \<times> bool list \<times> HealthMessage list) \<times> Microkubed)"
where
  "startService name' constructor sv m =
     (case constructor of (serviceHandler, err) \<Rightarrow>
        let m1 = act [Construct serviceHandler] m in
        if err \<noteq> None
        then logFatal (LogEntry (''Couldn't create '' @ name' @ '' handler'')
               [(''error'', FErr err)]) m1
        else
          let m2 = act [StartProc serviceHandler] m1 in
          if startErr sv \<noteq> None
          then logFatal (LogEntry (''Couldn't start '' @ name')
                 [(''error'', FErr (startErr sv))]) m2
          else
            (case healthGate serviceHandler (probes sv) 0
                    \<lparr>IsHealthy = False, Error = None\<rparr> (trace m2) of
               (msg, tr) \<Rightarrow>
                 let m3 = m2\<lparr>trace := tr\<rparr> in
                 if \<not> IsHealthy msg
                 then logFatal (LogEntry (name' @ '' didn't become healthy in time!'')
                        [(''error'', FErr (Error msg))]) m3
                 else Inr ((serviceHandler, [], []), m3)))"


subsection \<open>The six start functions and start\<close>

definition register ::
  "string \<Rightarrow> (ServiceHandler \<times> bool list \<times> HealthMessage list) \<Rightarrow> Microkubed \<Rightarrow> Microkubed"
where
  "register name' r m =
     (case r of (h, stateChan, healthChan') \<Rightarrow>
        m\<lparr>serviceList := serviceList m @
             [\<lparr>exitChan = stateChan, healthChan = healthChan', handler = h, name = name'\<rparr>]\<rparr>)"

definition appendHandler :: "ServiceHandler \<Rightarrow> Microkubed \<Rightarrow> Microkubed" where
  "appendHandler h m = m\<lparr>serviceHandlers := serviceHandlers m @ [h]\<rparr>"

definition startEtcd :: "environment \<Rightarrow> Microkubed \<Rightarrow> abort + Microkubed" where
  "startEtcd env m =
     andThen (startService ''etcd'' (EtcdH, None) (svc env EtcdH) m)
       (\<lambda>(r, m). Inr (register ''etcd'' r (appendHandler (fst r) m)))"

definition startKubeAPIServer :: "environment \<Rightarrow> Microkubed \<Rightarrow> abort + Microkubed" where
  "startKubeAPIServer env m =
     andThen (startService ''kube-apiserver'' (KubeAPIServerH, None) (svc env KubeAPIServerH) m)
       (\<lambda>(r, m).
          let m = appendHandler (fst r) m in
          if kubeconfigStatErr env
          then (let m = act [CreateClientKubeconfig] m in
                if kubeconfigErr env \<noteq> None
                then logFatal (LogEntry ''Couldn't create kubeconfig!''
                       [(''error'', FErr (kubeconfigErr env))]) m
                else Inr (register ''kube-api'' r m))
          else Inr (register ''kube-api'' r m))"

definition startKubeControllerManager :: "environment \<Rightarrow> Microkubed \<Rightarrow> abort + Microkubed" where
  "startKubeControllerManager env m =
     andThen (startService ''kube-controller-manager'' (ControllerManagerH, None)
                (svc env ControllerManagerH) m)
       (\<lambda>(r, m). Inr (register ''kube-controller-manager'' r (appendHandler (fst r) m)))"

definition startKubeScheduler :: "environment \<Rightarrow> Microkubed \<Rightarrow> abort + Microkubed" where
  "startKubeScheduler env m =
     andThen (startService ''kube-scheduler''
                (KubeSchedulerH, constructErr (svc env KubeSchedulerH)) (svc env KubeSchedulerH) m)
       (\<lambda>(r, m). Inr (register ''kube-scheduler'' r (appendHandler (fst r) m)))"

definition startKubelet :: "environment \<Rightarrow> Microkubed \<Rightarrow> abort + Microkubed" where
  "startKubelet env m =
     andThen (startService ''kubelet''
                (KubeletH, constructErr (svc env KubeletH)) (svc env KubeletH) m)
       (\<lambda>(r, m). Inr (register ''kubelet'' r (appendHandler (fst r) m)))"

text \<open>
  \<^verbatim>\<open>startKubeProxy\<close> has \<^verbatim>\<open>defer kubeProxyHandler.Stop()\<close> after \<^verbatim>\<open>startService\<close> returns:
  the call runs when the function returns, after both appends.
\<close>

definition startKubeProxy :: "environment \<Rightarrow> Microkubed \<Rightarrow> abort + Microkubed" where
  "startKubeProxy env m =
     andThen (startService ''kube-proxy''
                (KubeProxyH, constructErr (svc env KubeProxyH)) (svc env KubeProxyH) m)
       (\<lambda>(r, m). Inr (act [Stop (fst r)] (register ''kube-proxy'' r (appendHandler (fst r) m))))"

text \<open>
  \<^verbatim>\<open>createDirectories\<close> and \<^verbatim>\<open>findBinaries\<close> work on the file system; each of their
  \<^verbatim>\<open>Fatal\<close> exits is an answer of the environment.
\<close>

definition createDirectories :: "environment \<Rightarrow> Microkubed \<Rightarrow> abort + Microkubed" where
  "createDirectories env m =
     (let m = act [CreateDirectories] m in
      case dirsFatal env of Some e \<Rightarrow> logFatal e m | None \<Rightarrow> Inr m)"

definition findBinaries :: "environment \<Rightarrow> Microkubed \<Rightarrow> abort + Microkubed" where
  "findBinaries env m =
     (let m = act [FindBinaries] m in
      if etcdBinErr env \<noteq> None
      then logFatal (LogEntry ''Couldn't find etcd binary'' [(''error'', FErr (etcdBinErr env))]) m
      else if hyperkubeBinErr env \<noteq> None
      then logFatal (LogEntry ''Couldn't find hyperkube binary''
             [(''error'', FErr (hyperkubeBinErr env))]) m
      else Inr m)"

definition start :: "environment \<Rightarrow> Microkubed \<Rightarrow> abort + Microkubed" where
  "start env m =
     andThen (createDirectories env m) (\<lambda>m.
     andThen (let m = act [CreateOrLoadCertificates] m in
              if credErr env \<noteq> None
              then logFatal (LogEntry ''Couldn't init credentials!''
                     [(''error'', FErr (credErr env))]) m
              else Inr m) (\<lambda>m.
     andThen (findBinaries env m) (\<lambda>m.
     andThen (startEtcd env m) (\<lambda>m.
     andThen (startKubeAPIServer env m) (\<lambda>m.
     andThen (startKubeControllerManager env m) (\<lambda>m.
     andThen (startKubeScheduler env m) (\<lambda>m.
     andThen (startKubelet env m) (\<lambda>m.
     startKubeProxy env m))))))))"


subsection \<open>After startup: node readiness, monitors, shutdown\<close>

definition waitUntilNodeReady :: "environment \<Rightarrow> Microkubed \<Rightarrow> abort + Microkubed" where
  "waitUntilNodeReady env m =
     (let m = act [NewKubeClient] m in
      if kubeClientErr env \<noteq> None
      then logFatal (LogEntry ''Couldn't init kube client''
             [(''error'', FErr (kubeClientErr env))]) m
      else Inr ((act [WaitForNode, SignalNotify] m)\<lparr>gracefulTerminationMode := True\<rparr>))"



text \<open>
  The orchestrator as \<^verbatim>\<open>Run\<close> has it when it calls \<^verbatim>\<open>start\<close>: the flag was just set to
  \<^verbatim>\<open>false\<close> and both slices are still empty.
\<close>

definition initialState :: Microkubed where
  "initialState =
     \<lparr>gracefulTerminationMode = False, serviceHandlers = [], serviceList = [], trace = []\<rparr>"









section \<open>Process handles and the kubelet handler\<close>

text \<open>
  Modelled from the spec: \<^verbatim>\<open>helpers.CmdHandler\<close> (the spec's ProcessHandle) with
  \<^verbatim>\<open>NewCmdHandler\<close>, \<^verbatim>\<open>Start\<close> and \<^verbatim>\<open>Stop\<close>; the repository's sources here hold only its
  tests and its callers. The handle has the binary, the arguments, the started and the
  stopped flag and the operating-system process of the spec's data model. Three more
  fields record what the handle does: each call of the exit callback with its two
  arguments (success, error detail present), the termination requests sent to the
  process, and the background tasks alive (output capture for both streams and the wait
  for the exit).
\<close>

datatype exitCause = ExitCode int | Signalled

datatype osProcess = NoProcess | Running | Reaped exitCause

record CmdHandler =
  cmdBinary :: string
  cmdArgs :: "string list"
  started :: bool
  stopped :: bool
  process :: osProcess
  exitCallbacks :: "(bool \<times> bool) list"
  killsSent :: nat
  backgroundTasks :: nat

text \<open>Modelled from the spec: \<^verbatim>\<open>NewCmdHandler\<close> only stores what it is given.\<close>

definition NewCmdHandler :: "string \<Rightarrow> string list \<Rightarrow> CmdHandler" where
  "NewCmdHandler binary args =
     \<lparr>cmdBinary = binary, cmdArgs = args, started = False, stopped = False,
      process = NoProcess, exitCallbacks = [], killsSent = 0, backgroundTasks = 0\<rparr>"

text \<open>
  Modelled from the spec: \<^verbatim>\<open>CmdHandler.Start\<close>. "Start() spawns the binary with given
  arguments and fails synchronously (no background task started) if the binary cannot be
  located or executed. On success it returns immediately". Whether the operating system
  can locate and execute a binary is the parameter \<open>executable\<close>.
\<close>

definition CmdHandler_Start :: "(string \<Rightarrow> bool) \<Rightarrow> CmdHandler \<Rightarrow> string option \<times> CmdHandler" where
  "CmdHandler_Start executable c =
     (if \<not> executable (cmdBinary c)
      then (Some ''no such file or directory'', c)
      else (None, c\<lparr>started := True, process := Running, backgroundTasks := 3\<rparr>))"

text \<open>
  Modelled from the spec: \<^verbatim>\<open>CmdHandler.Stop\<close>. "Stop() requests termination and returns
  without waiting"; "Stop() before Start(), after exit, or called concurrently multiple
  times must be safe and must not double-signal".
\<close>

definition CmdHandler_Stop :: "CmdHandler \<Rightarrow> CmdHandler" where
  "CmdHandler_Stop c =
     (if started c \<and> \<not> stopped c \<and> process c = Running
      then c\<lparr>stopped := True, killsSent := killsSent c + 1\<rparr>
      else c)"

text \<open>
  Modelled from the spec: the task of the handle that waits for the process. "On
  termination for any reason, invokes the exit callback exactly once with (success
  boolean, optional error detail) - success iff exit code 0"; "any other value or
  signal-induced termination is failure with captured error detail". A process that is
  not running cannot end.
\<close>

definition processEnds :: "exitCause \<Rightarrow> CmdHandler \<Rightarrow> CmdHandler" where
  "processEnds t c =
     (if process c = Running
      then c\<lparr>process := Reaped t,
             exitCallbacks := exitCallbacks c @ [(t = ExitCode 0, t \<noteq> ExitCode 0)],
             backgroundTasks := 0\<rparr>
      else c)"

text \<open>What can happen to a handle after \<^verbatim>\<open>Start\<close>, in any order and any number of times.\<close>

datatype cmdEvent = CallStop | ProcessEnds exitCause

fun cmdStep :: "CmdHandler \<Rightarrow> cmdEvent \<Rightarrow> CmdHandler" where
  "cmdStep c CallStop = CmdHandler_Stop c"
| "cmdStep c (ProcessEnds t) = processEnds t c"

definition cmdRun :: "CmdHandler \<Rightarrow> cmdEvent list \<Rightarrow> CmdHandler" where
  "cmdRun c evs = foldl cmdStep c evs"

text \<open>
  \<^verbatim>\<open>KubeletHandler\<close> (pkg/handlers/kube/KubeletHandler.go): its fields without the embedded
  \<^verbatim>\<open>BaseServiceHandler\<close> and the output callback, which \<^verbatim>\<open>stop\<close> and \<^verbatim>\<open>Start\<close> only pass on.
  The pointer \<^verbatim>\<open>cmd\<close> is \<open>None\<close> for \<^verbatim>\<open>nil\<close>.
\<close>

record KubeletHandler =
  cmd :: "CmdHandler option"
  binary :: string
  sudoBin :: string
  kubeServerCert :: string
  kubeServerKey :: string
  kubeCACert :: string
  listenAddress :: string
  rootDir :: string
  kubeconfig :: string
  config :: string

text \<open>\<^verbatim>\<open>func (handler *KubeletHandler) stop()\<close>.\<close>

definition KubeletHandler_stop :: "KubeletHandler \<Rightarrow> KubeletHandler" where
  "KubeletHandler_stop handler' =
     (case cmd handler' of
        None \<Rightarrow> handler'
      | Some c \<Rightarrow> handler'\<lparr>cmd := Some (CmdHandler_Stop c)\<rparr>)"

text \<open>
  \<^verbatim>\<open>func (handler *KubeletHandler) Start() error\<close>. The standard library's \<^verbatim>\<open>path.Join\<close>
  is the parameter \<open>pathJoin\<close>, and \<open>statOk\<close> tells whether \<^verbatim>\<open>os.Stat\<close> finds a path.
\<close>

definition KubeletHandler_Start ::
  "(string \<Rightarrow> bool) \<Rightarrow> (string \<Rightarrow> string \<Rightarrow> string) \<Rightarrow> (string \<Rightarrow> bool) \<Rightarrow> KubeletHandler
     \<Rightarrow> string option \<times> KubeletHandler"
where
  "KubeletHandler_Start executable pathJoin statOk handler' =
     (let cniDir = pathJoin (rootDir handler') ''kubelet/cni'';
          cniDir = (if \<not> statOk (pathJoin cniDir ''bridge'')
                    then ''/usr/lib/x86_64-linux-gnu/libexec/cni-plugins''
                    else cniDir);
          c = NewCmdHandler (sudoBin handler')
                [binary handler', ''kubelet'',
                 ''--config'', config handler',
                 ''--node-ip'', listenAddress handler',
                 ''--kubeconfig'', kubeconfig handler',
                 ''--cni-bin-dir'', cniDir,
                 ''--root-dir'', pathJoin (rootDir handler') ''kubelet'',
                 ''--seccomp-profile-root'', pathJoin (rootDir handler') ''kubelet/seccomp'',
                 ''--bootstrap-checkpoint-path'', pathJoin (rootDir handler') ''kubelet/checkpoint'',
                 ''--network-plugin'', ''kubenet'',
                 ''--runtime-cgroups'', ''/systemd/system.slice''];
          (err, c') = CmdHandler_Start executable c
      in (err, handler'\<lparr>cmd := Some c'\<rparr>))"


section \<open>Observations on runs\<close>

text \<open>The steps of a health gate that probed \<open>n\<close> times: a one-second sleep, then one probe.\<close>

definition gateSteps :: "ServiceHandler \<Rightarrow> nat \<Rightarrow> action list" where
  "gateSteps h n = concat (replicate n [Sleep 1, Probe h])"

text \<open>The handlers whose \<^verbatim>\<open>Start\<close> was called, in the order of the calls.\<close>

fun startedOf :: "action list \<Rightarrow> ServiceHandler list" where
  "startedOf [] = []"
| "startedOf (StartProc h # as) = h # startedOf as"
| "startedOf (a # as) = startedOf as"

text \<open>The handlers on which \<^verbatim>\<open>Stop\<close> was called, in the order of the calls.\<close>

fun stoppedOf :: "action list \<Rightarrow> ServiceHandler list" where
  "stoppedOf [] = []"
| "stoppedOf (Stop h # as) = h # stoppedOf as"
| "stoppedOf (a # as) = stoppedOf as"

definition startOrder :: "ServiceHandler list" where
  "startOrder = [EtcdH, KubeAPIServerH, ControllerManagerH, KubeSchedulerH, KubeletH, KubeProxyH]"

text \<open>Some probe within the retry budget of eight reports healthy.\<close>

definition gateHealthy :: "svcEnv \<Rightarrow> bool" where
  "gateHealthy sv = list_ex (\<lambda>i. IsHealthy (probes sv i)) [0..<8]"

text \<open>The orchestrator at the end of a step, whether the step returned or ended the program.\<close>

definition finalState :: "abort + Microkubed \<Rightarrow> Microkubed" where
  "finalState r = (case r of Inl (e, m) \<Rightarrow> m | Inr m \<Rightarrow> m)"

text \<open>
  What one of the six start functions does to an orchestrator that is still starting up,
  and what holds after the first \<open>n\<close> of them; both are used to follow \<^verbatim>\<open>start\<close> through
  its stages.
\<close>

definition stageSpec ::
  "ServiceHandler \<Rightarrow> environment \<Rightarrow> (Microkubed \<Rightarrow> abort + Microkubed) \<Rightarrow> bool"
where
  "stageSpec h env f =
     (\<forall>m. \<not> gracefulTerminationMode m \<longrightarrow>
        (case f m of
           Inr m' \<Rightarrow>
             \<not> gracefulTerminationMode m'
             \<and> serviceHandlers m' = serviceHandlers m @ [h]
             \<and> startedOf (trace m') = startedOf (trace m) @ [h]
             \<and> stoppedOf (trace m')
                   = stoppedOf (trace m) @ (if h = KubeProxyH then [KubeProxyH] else [])
             \<and> gateHealthy (svc env h)
         | Inl (e, mf) \<Rightarrow>
             (\<exists>tr. trace mf = tr @ map Stop (serviceHandlers mf) \<and> stoppedOf tr = stoppedOf (trace m))
             \<and> (serviceHandlers mf = serviceHandlers m
                  \<and> (startedOf (trace mf) = startedOf (trace m)
                       \<or> startedOf (trace mf) = startedOf (trace m) @ [h])
                \<or> serviceHandlers mf = serviceHandlers m @ [h]
                  \<and> startedOf (trace mf) = startedOf (trace m) @ [h]
                  \<and> gateHealthy (svc env h))))"

definition reached :: "nat \<Rightarrow> environment \<Rightarrow> abort + Microkubed \<Rightarrow> bool" where
  "reached n env r =
     (case r of
        Inr m' \<Rightarrow>
          \<not> gracefulTerminationMode m'
          \<and> serviceHandlers m' = take n startOrder
          \<and> startedOf (trace m') = take n startOrder
          \<and> stoppedOf (trace m') = (if n = 6 then [KubeProxyH] else [])
          \<and> (\<forall>j<n. gateHealthy (svc env (startOrder ! j)))
      | Inl (e, mf) \<Rightarrow>
          (\<exists>tr. trace mf = tr @ map Stop (serviceHandlers mf) \<and> stoppedOf tr = [])
          \<and> (\<exists>k k'. k \<le> n \<and> k' \<le> n \<and> k \<le> k' \<and> k' \<le> Suc k
                \<and> serviceHandlers mf = take k startOrder
                \<and> startedOf (trace mf) = take k' startOrder
                \<and> (\<forall>j<k. gateHealthy (svc env (startOrder ! j)))))"


text \<open>
  The steps of \<^verbatim>\<open>start\<close> that come before the first service: directories, credentials,
  binaries.
\<close>

definition prelude :: "environment \<Rightarrow> Microkubed \<Rightarrow> abort + Microkubed" where
  "prelude env m =
     andThen (createDirectories env m) (\<lambda>m.
     andThen (let m = act [CreateOrLoadCertificates] m in
              if credErr env \<noteq> None
              then logFatal (LogEntry ''Couldn't init credentials!''
                     [(''error'', FErr (credErr env))]) m
              else Inr m) (\<lambda>m.
     findBinaries env m))"


text \<open>What holds of a handle from a successful \<^verbatim>\<open>Start\<close> on, whatever happens to it.\<close>

definition cmdInv :: "CmdHandler \<Rightarrow> bool" where
  "cmdInv c =
     (started c
      \<and> killsSent c = (if stopped c then 1 else 0)
      \<and> (case process c of
            NoProcess \<Rightarrow> False
          | Running \<Rightarrow> exitCallbacks c = [] \<and> backgroundTasks c = 3
          | Reaped t \<Rightarrow> exitCallbacks c = [(t = ExitCode 0, t \<noteq> ExitCode 0)]
                          \<and> backgroundTasks c = 0))"


section \<open>Concrete inputs\<close>

definition unhealthyMsg :: HealthMessage where
  "unhealthyMsg = \<lparr>IsHealthy = False, Error = Some ''connection refused''\<rparr>"

definition healthyMsg :: HealthMessage where
  "healthyMsg = \<lparr>IsHealthy = True, Error = None\<rparr>"

definition etcdEntry :: serviceEntry where
  "etcdEntry = \<lparr>exitChan = [], healthChan = [], handler = EtcdH, name = ''etcd''\<rparr>"


definition slowSvc :: svcEnv where
  "slowSvc = \<lparr>constructErr = None, startErr = None,
               probes = (\<lambda>i. if i < 3 then unhealthyMsg else healthyMsg)\<rparr>"

definition deadSvc :: svcEnv where
  "deadSvc = \<lparr>constructErr = None, startErr = None, probes = (\<lambda>i. unhealthyMsg)\<rparr>"


definition goodSvc :: svcEnv where
  "goodSvc = \<lparr>constructErr = None, startErr = None, probes = (\<lambda>i. healthyMsg)\<rparr>"

definition goodEnv :: environment where
  "goodEnv = \<lparr>dirsFatal = None, credErr = None, etcdBinErr = None, hyperkubeBinErr = None,
      kubeconfigStatErr = True, kubeconfigErr = None, kubeClientErr = None,
      svc = (\<lambda>h. goodSvc), signalAfter = None, monitorEnds = None\<rparr>"

definition apiDeadEnv :: environment where
  "apiDeadEnv = goodEnv\<lparr>svc := (\<lambda>h. if h = KubeAPIServerH then deadSvc else goodSvc)\<rparr>"


definition signalledEnv :: environment where
  "signalledEnv = goodEnv\<lparr>signalAfter := Some (Interrupt, 2)\<rparr>"


text \<open>
  The orchestrator when \<^verbatim>\<open>Run\<close> has come back from \<^verbatim>\<open>waitUntilNodeReady\<close> with every
  collaborator answering well: all six services are up and the node is ready.
\<close>

definition runningState :: Microkubed where
  "runningState = finalState (andThen (start goodEnv initialState) (waitUntilNodeReady goodEnv))"



definition simpleJoin :: "string \<Rightarrow> string \<Rightarrow> string" where
  "simpleJoin d f = d @ ''/'' @ f"

definition binSh :: "string \<Rightarrow> bool" where
  "binSh b = (b = ''/bin/bash'' \<or> b = ''/bin/sh'')"

definition newKubelet :: KubeletHandler where
  "newKubelet = \<lparr>cmd = None, binary = ''/usr/bin/hyperkube'', sudoBin = ''/bin/bash'',
     kubeServerCert = ''server.crt'', kubeServerKey = ''server.key'', kubeCACert = ''ca.crt'',
     listenAddress = ''127.0.0.1'', rootDir = ''/var/lib/mukube/kube'',
     kubeconfig = ''/var/lib/mukube/kube/kubeconfig'',
     config = ''/var/lib/mukube/kube/kubelet.cfg''\<rparr>"










section \<open>Properties\<close>

subsection \<open>CopyInformationFromBase\<close>

text \<open>
  C10. For every pair of execution environments \<open>e\<close> and \<open>b\<close>, copying from the base \<open>b\<close>
  gives \<open>e\<close> the ten ports, the three addresses and the sudo method of \<open>b\<close>, and keeps
  the binary, the working directory and the two handlers of \<open>e\<close>.
\<close>

theorem CopyInformationFromBase_frame:
  "CopyInformationFromBase e b =
     \<lparr> Binary = Binary e,
       SudoMethod = SudoMethod b,
       Workdir = Workdir e,
       ListenAddress = ListenAddress b,
       ServiceAddress = ServiceAddress b,
       DNSAddress = DNSAddress b,
       OutputHandler = OutputHandler e,
       ExitHandler = ExitHandler e,
       EtcdClientPort = EtcdClientPort b,
       EtcdPeerPort = EtcdPeerPort b,
       KubeApiPort = KubeApiPort b,
       KubeNodeApiPort = KubeNodeApiPort b,
       KubeControllerManagerPort = KubeControllerManagerPort b,
       KubeletHealthPort = KubeletHealthPort b,
       KubeProxyHealthPort = KubeProxyHealthPort b,
       KubeProxyMetricsPort = KubeProxyMetricsPort b,
       KubeSchedulerHealthPort = KubeSchedulerHealthPort b,
       KubeSchedulerMetricsPort = KubeSchedulerMetricsPort b \<rparr>"
  by (simp add: CopyInformationFromBase_def)


subsection \<open>Health gate and monitor\<close>


lemma gateSteps_Suc: "gateSteps h (Suc n) = [Sleep 1, Probe h] @ gateSteps h n"
  by (simp add: gateSteps_def)

lemma healthGate_stop:
  "IsHealthy msg \<or> 8 \<le> retries \<Longrightarrow> healthGate h pr retries msg tr = (msg, tr)"
  by (subst healthGate.simps) auto

lemma healthGate_first_healthy:
  "retries \<le> k \<Longrightarrow> k < 8 \<Longrightarrow> \<not> IsHealthy msg \<Longrightarrow> IsHealthy (pr k) \<Longrightarrow>
   (\<forall>i. retries \<le> i \<and> i < k \<longrightarrow> \<not> IsHealthy (pr i)) \<Longrightarrow>
   healthGate h pr retries msg tr = (pr k, tr @ gateSteps h (Suc k - retries))"
proof (induction "k - retries" arbitrary: retries msg tr)
  case 0
  then have "retries = k" by simp
  with 0 show ?case
    by (subst healthGate.simps) (simp add: healthGate_stop gateSteps_def)
next
  case (Suc d)
  then have lt: "retries < k" by simp
  have step: "healthGate h pr (retries + 1) (pr retries) (tr @ [Sleep 1, Probe h])
        = (pr k, (tr @ [Sleep 1, Probe h]) @ gateSteps h (Suc k - (retries + 1)))"
    using Suc.prems Suc.hyps(2) lt by (intro Suc.hyps(1)) auto
  have "Suc k - retries = Suc (Suc k - (retries + 1))" using lt by simp
  then show ?case using Suc.prems lt step
    by (subst healthGate.simps) (simp add: gateSteps_Suc)
qed

lemma healthGate_exhausted:
  "retries < 8 \<Longrightarrow> \<not> IsHealthy msg \<Longrightarrow>
   (\<forall>i. retries \<le> i \<and> i < 8 \<longrightarrow> \<not> IsHealthy (pr i)) \<Longrightarrow>
   healthGate h pr retries msg tr = (pr 7, tr @ gateSteps h (8 - retries))"
proof (induction "7 - retries" arbitrary: retries msg tr)
  case 0
  then have "retries = 7" by simp
  with 0 show ?case
    by (subst healthGate.simps) (simp add: healthGate_stop gateSteps_def)
next
  case (Suc d)
  then have lt: "retries < 7" by simp
  have step: "healthGate h pr (retries + 1) (pr retries) (tr @ [Sleep 1, Probe h])
        = (pr 7, (tr @ [Sleep 1, Probe h]) @ gateSteps h (8 - (retries + 1)))"
    using Suc.prems Suc.hyps(2) lt by (intro Suc.hyps(1)) auto
  have "8 - retries = Suc (8 - (retries + 1))" using lt by simp
  then show ?case using Suc.prems lt step
    by (subst healthGate.simps) (simp add: gateSteps_Suc)
qed

lemma gateHealthy_iff: "gateHealthy sv \<longleftrightarrow> (\<exists>i<8. IsHealthy (probes sv i))"
  by (auto simp add: gateHealthy_def list_ex_iff)

lemma healthGate_cases:
  "\<not> IsHealthy msg \<Longrightarrow>
   (\<exists>k<8. IsHealthy (pr k) \<and> (\<forall>i<k. \<not> IsHealthy (pr i)) \<and>
       healthGate h pr 0 msg tr = (pr k, tr @ gateSteps h (Suc k)))
   \<or> ((\<forall>i<8. \<not> IsHealthy (pr i)) \<and> \<not> IsHealthy (pr 7)
        \<and> healthGate h pr 0 msg tr = (pr 7, tr @ gateSteps h 8))"
proof (cases "\<exists>k<8. IsHealthy (pr k)")
  case True
  define k where "k = (LEAST k. k < 8 \<and> IsHealthy (pr k))"
  from True have k: "k < 8 \<and> IsHealthy (pr k)" unfolding k_def by (metis (mono_tags, lifting) LeastI_ex)
  have least: "\<forall>i<k. \<not> IsHealthy (pr i)"
    unfolding k_def using not_less_Least less_trans k k_def by (metis (no_types, lifting))
  assume "\<not> IsHealthy msg"
  then have "healthGate h pr 0 msg tr = (pr k, tr @ gateSteps h (Suc k - 0))"
    using k least by (intro healthGate_first_healthy) auto
  then show ?thesis using k least by auto
next
  case False
  assume "\<not> IsHealthy msg"
  then have "healthGate h pr 0 msg tr = (pr 7, tr @ gateSteps h (8 - 0))"
    using False by (intro healthGate_exhausted) auto
  then show ?thesis using False by auto
qed

lemma startedOf_append: "startedOf (xs @ ys) = startedOf xs @ startedOf ys"
  by (induction xs rule: startedOf.induct) simp_all

lemma stoppedOf_append: "stoppedOf (xs @ ys) = stoppedOf xs @ stoppedOf ys"
  by (induction xs rule: stoppedOf.induct) simp_all

lemma startedOf_gateSteps: "startedOf (gateSteps h n) = []"
  by (induction n) (simp_all add: gateSteps_def)

lemma stoppedOf_gateSteps: "stoppedOf (gateSteps h n) = []"
  by (induction n) (simp_all add: gateSteps_def)

lemma startedOf_Stops: "startedOf (map Stop hs) = []"
  by (induction hs) simp_all

lemma stoppedOf_Stops: "stoppedOf (map Stop hs) = hs"
  by (induction hs) simp_all

lemmas obs_simps = startedOf_append stoppedOf_append startedOf_gateSteps stoppedOf_gateSteps
  startedOf_Stops stoppedOf_Stops

lemma startService_cases:
  "(\<exists>e. startService name' (h, err) sv m = Inl (e, exitHook (act [Construct h] m))
        \<and> err \<noteq> None
        \<and> e = LogEntry (''Couldn't create '' @ name' @ '' handler'') [(''error'', FErr err)])
   \<or> (\<exists>e. startService name' (h, err) sv m = Inl (e, exitHook (act [Construct h, StartProc h] m))
        \<and> err = None \<and> startErr sv \<noteq> None
        \<and> e = LogEntry (''Couldn't start '' @ name') [(''error'', FErr (startErr sv))])
   \<or> (\<exists>e. startService name' (h, err) sv m
              = Inl (e, exitHook (act ([Construct h, StartProc h] @ gateSteps h 8) m))
        \<and> err = None \<and> startErr sv = None \<and> \<not> gateHealthy sv
        \<and> e = LogEntry (name' @ '' didn't become healthy in time!'')
                 [(''error'', FErr (Error (probes sv 7)))])
   \<or> (\<exists>k<8. startService name' (h, err) sv m
              = Inr ((h, [], []), act ([Construct h, StartProc h] @ gateSteps h (Suc k)) m)
        \<and> err = None \<and> startErr sv = None \<and> IsHealthy (probes sv k)
        \<and> (\<forall>i<k. \<not> IsHealthy (probes sv i)))"
proof -
  let ?msg = "\<lparr>IsHealthy = False, Error = None\<rparr>"
  have nh: "\<not> IsHealthy ?msg" by simp
  show ?thesis
    using healthGate_cases[OF nh, of "probes sv" h "trace m @ [Construct h, StartProc h]"]
    by (cases err; cases "startErr sv")
       (auto simp add: startService_def logFatal_def act_def Let_def gateHealthy_iff)
qed


lemma checkService_loop_append:
  "checkService_loop m h c (xs @ ys) =
     (case checkService_loop m h c xs of Inl d \<Rightarrow> Inl d | Inr c' \<Rightarrow> checkService_loop m h c' ys)"
  by (induction m h c xs rule: checkService_loop.induct) (simp_all add: logFatal_def Let_def)

lemma checkService_loop_unhealthy_run:
  "\<forall>msg \<in> set us. \<not> IsHealthy msg \<Longrightarrow> c + int (length us) < 10 \<Longrightarrow>
     checkService_loop m h c (map HealthEv us) = Inr (c + int (length us))"
proof (induction us arbitrary: c)
  case Nil
  then show ?case by simp
next
  case (Cons u us)
  have "checkService_loop m h (c + 1) (map HealthEv us) = Inr (c + 1 + int (length us))"
    using Cons.prems by (intro Cons.IH) auto
  then show ?case using Cons.prems by (simp add: Let_def)
qed

lemma checkService_loop_range:
  "checkService_loop m h c evs = Inr c' \<Longrightarrow> 0 \<le> c \<Longrightarrow> c \<le> 9 \<Longrightarrow> 0 \<le> c' \<and> c' \<le> 9"
  by (induction m h c evs rule: checkService_loop.induct)
     (auto simp add: logFatal_def Let_def split: if_splits)

text \<open>
  C2. In the monitor of every service, a healthy message sets the count of consecutive
  failures to zero and an unhealthy one adds one to it; the count stays between 0 and 9
  while the monitor runs; nine unhealthy messages in a row leave the monitor running
  with count 9, and the tenth ends the program with a fatal entry naming the service.
\<close>

theorem checkService_failure_counter:
  "(checkService m h evs = Inr c \<longrightarrow> 0 \<le> c \<and> c \<le> 9)
   \<and> (checkService m h evs = Inr c \<and> IsHealthy msg \<longrightarrow>
         checkService m h (evs @ [HealthEv msg]) = Inr 0)
   \<and> (checkService m h evs = Inr c \<and> \<not> IsHealthy msg \<and> c \<noteq> 9 \<longrightarrow>
         checkService m h (evs @ [HealthEv msg]) = Inr (c + 1))
   \<and> (checkService m h evs = Inr c \<and> \<not> IsHealthy msg \<and> c = 9 \<longrightarrow>
         checkService m h (evs @ [HealthEv msg]) =
           Inl (LogEntry ''Too many failed health checks, aborting!''
                  [(''app'', FStr (name h)), (''count'', FInt 10)], exitHook m))
   \<and> ((\<forall>u \<in> set us. \<not> IsHealthy u) \<and> length us = 9 \<longrightarrow>
         checkService m h (map HealthEv us) = Inr 9)
   \<and> ((\<forall>u \<in> set us. \<not> IsHealthy u) \<and> length us = 9 \<and> \<not> IsHealthy msg \<longrightarrow>
         checkService m h (map HealthEv (us @ [msg])) =
           Inl (LogEntry ''Too many failed health checks, aborting!''
                  [(''app'', FStr (name h)), (''count'', FInt 10)], exitHook m))"
proof -
  have range: "checkService m h evs = Inr c \<longrightarrow> 0 \<le> c \<and> c \<le> 9"
    unfolding checkService_def using checkService_loop_range[of m h 0 evs c] by simp
  have step: "checkService m h evs = Inr c \<Longrightarrow>
      checkService m h (evs @ [HealthEv msg]) = checkService_loop m h c [HealthEv msg]"
    unfolding checkService_def by (simp add: checkService_loop_append)
  have nine: "(\<forall>u \<in> set us. \<not> IsHealthy u) \<and> length us = 9 \<longrightarrow>
      checkService m h (map HealthEv us) = Inr 9"
    unfolding checkService_def using checkService_loop_unhealthy_run[of us 0 m h] by simp
  have ten: "(\<forall>u \<in> set us. \<not> IsHealthy u) \<and> length us = 9 \<and> \<not> IsHealthy msg \<longrightarrow>
      checkService m h (map HealthEv (us @ [msg])) =
        Inl (LogEntry ''Too many failed health checks, aborting!''
               [(''app'', FStr (name h)), (''count'', FInt 10)], exitHook m)"
    using nine unfolding checkService_def
    by (simp add: checkService_loop_append logFatal_def Let_def)
  show ?thesis using range nine ten
    by (auto simp add: step logFatal_def Let_def)
qed

theorem checkService_failure_counter_witness:
  "checkService (initialState\<lparr>gracefulTerminationMode := True\<rparr>) etcdEntry
      (map HealthEv (replicate 9 unhealthyMsg)) = Inr 9
   \<and> checkService (initialState\<lparr>gracefulTerminationMode := True\<rparr>) etcdEntry
      (map HealthEv (replicate 9 unhealthyMsg) @ [HealthEv unhealthyMsg]) =
        Inl (LogEntry ''Too many failed health checks, aborting!''
               [(''app'', FStr ''etcd''), (''count'', FInt 10)],
             initialState\<lparr>gracefulTerminationMode := True\<rparr>)
   \<and> checkService (initialState\<lparr>gracefulTerminationMode := True\<rparr>) etcdEntry
      (map HealthEv (replicate 9 unhealthyMsg) @ [HealthEv healthyMsg]) = Inr 0"
proof -
  let ?m = "initialState\<lparr>gracefulTerminationMode := True\<rparr>"
  let ?evs = "map HealthEv (replicate 9 unhealthyMsg)"
  have nine: "checkService ?m etcdEntry ?evs = Inr 9"
    using checkService_failure_counter[of ?m etcdEntry "[]" 0 unhealthyMsg "replicate 9 unhealthyMsg"]
    by (simp add: unhealthyMsg_def)
  have ten: "checkService ?m etcdEntry (?evs @ [HealthEv unhealthyMsg]) =
        Inl (LogEntry ''Too many failed health checks, aborting!''
               [(''app'', FStr ''etcd''), (''count'', FInt 10)], ?m)"
    using nine checkService_failure_counter[of ?m etcdEntry ?evs 9 unhealthyMsg "[]"]
    by (simp add: unhealthyMsg_def etcdEntry_def exitHook_def)
  have reset: "checkService ?m etcdEntry (?evs @ [HealthEv healthyMsg]) = Inr 0"
    using nine checkService_failure_counter[of ?m etcdEntry ?evs 9 healthyMsg "[]"]
    by (simp add: healthyMsg_def)
  show ?thesis using nine ten reset by simp
qed

text \<open>
  C3. For every service whose process was launched by \<^verbatim>\<open>startService\<close>, the startup
  health gate either stops at the first healthy probe, after at most eight rounds of
  "sleep one second, probe once", and returns the handler; or all eight probes are
  unhealthy, and \<^verbatim>\<open>startService\<close> does not return: the program ends with a fatal entry
  naming the service.
\<close>

theorem startService_health_gate:
  "startErr sv = None \<longrightarrow>
     ((\<exists>k<8. IsHealthy (probes sv k) \<and> (\<forall>i<k. \<not> IsHealthy (probes sv i))
         \<and> startService name' (h, None) sv m =
             Inr ((h, [], []), act ([Construct h, StartProc h] @ gateSteps h (Suc k)) m))
      \<or> ((\<forall>i<8. \<not> IsHealthy (probes sv i))
         \<and> startService name' (h, None) sv m =
             Inl (LogEntry (name' @ '' didn't become healthy in time!'')
                    [(''error'', FErr (Error (probes sv 7)))],
                  exitHook (act ([Construct h, StartProc h] @ gateSteps h 8) m))))"
  using startService_cases[of name' h None sv m] by (auto simp add: gateHealthy_iff)

theorem startService_health_gate_witness:
  "startService ''etcd'' (EtcdH, None) slowSvc initialState =
     Inr ((EtcdH, [], []),
          act [Construct EtcdH, StartProc EtcdH,
               Sleep 1, Probe EtcdH, Sleep 1, Probe EtcdH, Sleep 1, Probe EtcdH,
               Sleep 1, Probe EtcdH] initialState)
   \<and> startService ''etcd'' (EtcdH, None) deadSvc initialState =
     Inl (LogEntry ''etcd didn't become healthy in time!''
            [(''error'', FErr (Some ''connection refused''))],
          act ([Construct EtcdH, StartProc EtcdH] @ gateSteps EtcdH 8) initialState)"
proof -
  have three: "k = 3" if "k < 8" "IsHealthy (probes slowSvc k)"
      "\<forall>i<k. \<not> IsHealthy (probes slowSvc i)" for k
  proof -
    have "\<not> k < 3" using that(2) by (auto simp add: slowSvc_def unhealthyMsg_def)
    moreover have "\<not> 3 < k" using that(3) by (auto simp add: slowSvc_def healthyMsg_def)
    ultimately show ?thesis by simp
  qed
  have started: "startErr slowSvc = None" by (simp add: slowSvc_def)
  have notdead: "\<not> (\<forall>i<8. \<not> IsHealthy (probes slowSvc i))"
    by (auto simp add: slowSvc_def healthyMsg_def intro!: exI[of _ 3])
  from startService_health_gate[of slowSvc "''etcd''" EtcdH initialState] started notdead
  obtain k where k: "k < 8" "IsHealthy (probes slowSvc k)"
      "\<forall>i<k. \<not> IsHealthy (probes slowSvc i)"
      "startService ''etcd'' (EtcdH, None) slowSvc initialState =
         Inr ((EtcdH, [], []),
              act ([Construct EtcdH, StartProc EtcdH] @ gateSteps EtcdH (Suc k)) initialState)"
    by blast
  have "Suc k = 4" using three[OF k(1,2,3)] by simp
  then have slow: "startService ''etcd'' (EtcdH, None) slowSvc initialState =
     Inr ((EtcdH, [], []), act ([Construct EtcdH, StartProc EtcdH] @ gateSteps EtcdH 4) initialState)"
    using k(4) by simp
  have dead: "startService ''etcd'' (EtcdH, None) deadSvc initialState =
     Inl (LogEntry ''etcd didn't become healthy in time!''
            [(''error'', FErr (Some ''connection refused''))],
          act ([Construct EtcdH, StartProc EtcdH] @ gateSteps EtcdH 8) initialState)"
    using startService_health_gate[of deadSvc "''etcd''" EtcdH initialState]
    by (auto simp add: deadSvc_def unhealthyMsg_def exitHook_def initialState_def act_def)
  show ?thesis using slow dead by (simp add: gateSteps_def eval_nat_numeral)
qed


subsection \<open>Following start through its stages\<close>

lemma exitHook_starting:
  "\<not> gracefulTerminationMode m \<Longrightarrow>
     exitHook m = m\<lparr>trace := trace m @ map Stop (serviceHandlers m)\<rparr>"
  by (simp add: exitHook_def)

lemma startService_stage:
  assumes "\<not> gracefulTerminationMode m"
  shows "case startService name' (h, err) sv m of
           Inr (r, m') \<Rightarrow>
             r = (h, [], [])
             \<and> \<not> gracefulTerminationMode m'
             \<and> serviceHandlers m' = serviceHandlers m
             \<and> startedOf (trace m') = startedOf (trace m) @ [h]
             \<and> stoppedOf (trace m') = stoppedOf (trace m)
             \<and> gateHealthy sv
         | Inl (e, mf) \<Rightarrow>
             (\<exists>tr. trace mf = tr @ map Stop (serviceHandlers mf)
                   \<and> stoppedOf tr = stoppedOf (trace m))
             \<and> serviceHandlers mf = serviceHandlers m
             \<and> (startedOf (trace mf) = startedOf (trace m)
                  \<or> startedOf (trace mf) = startedOf (trace m) @ [h])"
  using startService_cases[of name' h err sv m] assms
  by (auto simp add: exitHook_starting act_def obs_simps gateHealthy_iff)

lemmas stage_defs = andThen_def register_def appendHandler_def act_def logFatal_def
  exitHook_starting obs_simps Let_def

lemma stage_startEtcd: "stageSpec EtcdH env (startEtcd env)"
  unfolding stageSpec_def
  apply (intro allI impI)
  subgoal for m
    using startService_stage[where m = m and name' = "''etcd''" and h = EtcdH and err = None and sv = "svc env EtcdH"]
    by (auto simp add: startEtcd_def stage_defs split: sum.splits prod.splits)
  done

lemma stage_startKubeAPIServer: "stageSpec KubeAPIServerH env (startKubeAPIServer env)"
  unfolding stageSpec_def
  apply (intro allI impI)
  subgoal for m
    using startService_stage[where m = m and name' = "''kube-apiserver''" and h = KubeAPIServerH and err = None and sv = "svc env KubeAPIServerH"]
    by (auto simp add: startKubeAPIServer_def stage_defs split: sum.splits prod.splits if_splits)
  done

lemma stage_startKubeControllerManager:
  "stageSpec ControllerManagerH env (startKubeControllerManager env)"
  unfolding stageSpec_def
  apply (intro allI impI)
  subgoal for m
    using startService_stage[where m = m and name' = "''kube-controller-manager''" and h = ControllerManagerH and err = None and sv = "svc env ControllerManagerH"]
    by (auto simp add: startKubeControllerManager_def stage_defs split: sum.splits prod.splits)
  done

lemma stage_startKubeScheduler: "stageSpec KubeSchedulerH env (startKubeScheduler env)"
  unfolding stageSpec_def
  apply (intro allI impI)
  subgoal for m
    using startService_stage[where m = m and name' = "''kube-scheduler''" and h = KubeSchedulerH and err = "constructErr (svc env KubeSchedulerH)" and sv = "svc env KubeSchedulerH"]
    by (auto simp add: startKubeScheduler_def stage_defs split: sum.splits prod.splits)
  done

lemma stage_startKubelet: "stageSpec KubeletH env (startKubelet env)"
  unfolding stageSpec_def
  apply (intro allI impI)
  subgoal for m
    using startService_stage[where m = m and name' = "''kubelet''" and h = KubeletH and err = "constructErr (svc env KubeletH)" and sv = "svc env KubeletH"]
    by (auto simp add: startKubelet_def stage_defs split: sum.splits prod.splits)
  done

lemma stage_startKubeProxy: "stageSpec KubeProxyH env (startKubeProxy env)"
  unfolding stageSpec_def
  apply (intro allI impI)
  subgoal for m
    using startService_stage[where m = m and name' = "''kube-proxy''" and h = KubeProxyH and err = "constructErr (svc env KubeProxyH)" and sv = "svc env KubeProxyH"]
    by (auto simp add: startKubeProxy_def stage_defs split: sum.splits prod.splits)
  done

lemma andThen_assoc: "andThen (andThen r f) g = andThen r (\<lambda>x. andThen (f x) g)"
  by (simp add: andThen_def split: sum.splits)

lemma startOrder_length: "length startOrder = 6"
  by (simp add: startOrder_def)

lemma startOrder_distinct: "distinct startOrder"
  by (simp add: startOrder_def)

lemma take_Suc_startOrder:
  "n < 6 \<Longrightarrow> take (Suc n) startOrder = take n startOrder @ [startOrder ! n]"
  by (simp add: take_Suc_conv_app_nth startOrder_length)

lemma reached_step:
  assumes r: "reached n env r" and n: "n < 6" and f: "stageSpec (startOrder ! n) env f"
  shows "reached (Suc n) env (andThen r f)"
proof (cases r)
  case (Inl a)
  obtain e mf where a: "a = (e, mf)" by (cases a)
  from r Inl a obtain k k' where
      "k \<le> n" "k' \<le> n" "k \<le> k'" "k' \<le> Suc k"
      "serviceHandlers mf = take k startOrder" "startedOf (trace mf) = take k' startOrder"
      "\<forall>j<k. gateHealthy (svc env (startOrder ! j))"
    unfolding reached_def by auto
  then have "\<exists>k k'. k \<le> Suc n \<and> k' \<le> Suc n \<and> k \<le> k' \<and> k' \<le> Suc k
                \<and> serviceHandlers mf = take k startOrder
                \<and> startedOf (trace mf) = take k' startOrder
                \<and> (\<forall>j<k. gateHealthy (svc env (startOrder ! j)))"
    by (intro exI[of _ k] exI[of _ k']) simp
  moreover from r Inl a
  have "\<exists>tr. trace mf = tr @ map Stop (serviceHandlers mf) \<and> stoppedOf tr = []"
    unfolding reached_def by simp
  ultimately show ?thesis using Inl a by (simp add: reached_def andThen_def)
next
  case (Inr m)
  from r Inr have m: "\<not> gracefulTerminationMode m" "serviceHandlers m = take n startOrder"
      "startedOf (trace m) = take n startOrder" "stoppedOf (trace m) = []"
      "\<forall>j<n. gateHealthy (svc env (startOrder ! j))"
    using n unfolding reached_def by auto
  let ?h = "startOrder ! n"
  have res: "andThen r f = f m" using Inr by (simp add: andThen_def)
  show ?thesis
  proof (cases "f m")
    case (Inr m')
    with f m(1) have m': "\<not> gracefulTerminationMode m'"
        "serviceHandlers m' = serviceHandlers m @ [?h]"
        "startedOf (trace m') = startedOf (trace m) @ [?h]"
        "stoppedOf (trace m') = stoppedOf (trace m) @ (if ?h = KubeProxyH then [KubeProxyH] else [])"
        "gateHealthy (svc env ?h)"
      unfolding stageSpec_def by (auto dest!: spec[of _ m])
    have notlast: "(?h = KubeProxyH) = (Suc n = 6)"
      using n by (auto simp add: startOrder_def nth_Cons split: nat.splits)
    have "\<forall>j<Suc n. gateHealthy (svc env (startOrder ! j))"
      using m(5) m'(5) by (auto simp add: less_Suc_eq)
    then show ?thesis using m m' n notlast res Inr
      by (simp add: reached_def take_Suc_startOrder)
  next
    case (Inl a)
    obtain e mf where a: "a = (e, mf)" by (cases a)
    from f m(1) Inl a have tr: "\<exists>tr. trace mf = tr @ map Stop (serviceHandlers mf)
          \<and> stoppedOf tr = stoppedOf (trace m)"
      and alt: "serviceHandlers mf = serviceHandlers m
                  \<and> (startedOf (trace mf) = startedOf (trace m)
                       \<or> startedOf (trace mf) = startedOf (trace m) @ [?h])
                \<or> serviceHandlers mf = serviceHandlers m @ [?h]
                  \<and> startedOf (trace mf) = startedOf (trace m) @ [?h]
                  \<and> gateHealthy (svc env ?h)"
      unfolding stageSpec_def by (auto dest!: spec[of _ m])
    from alt consider
        (none) "serviceHandlers mf = take n startOrder" "startedOf (trace mf) = take n startOrder"
      | (started) "serviceHandlers mf = take n startOrder"
          "startedOf (trace mf) = take (Suc n) startOrder"
      | (registered) "serviceHandlers mf = take (Suc n) startOrder"
          "startedOf (trace mf) = take (Suc n) startOrder" "gateHealthy (svc env ?h)"
      using m n by (auto simp add: take_Suc_startOrder)
    then have "\<exists>k k'. k \<le> Suc n \<and> k' \<le> Suc n \<and> k \<le> k' \<and> k' \<le> Suc k
                \<and> serviceHandlers mf = take k startOrder
                \<and> startedOf (trace mf) = take k' startOrder
                \<and> (\<forall>j<k. gateHealthy (svc env (startOrder ! j)))"
    proof cases
      case none
      then show ?thesis using m(5) by (intro exI[of _ n] exI[of _ n]) simp
    next
      case started
      then show ?thesis using m(5) by (intro exI[of _ n] exI[of _ "Suc n"]) simp
    next
      case registered
      then show ?thesis using m(5)
        by (intro exI[of _ "Suc n"] exI[of _ "Suc n"]) (auto simp add: less_Suc_eq)
    qed
    then show ?thesis using tr m(4) res Inl a by (simp add: reached_def)
  qed
qed

lemma start_chain:
  "start env m =
     andThen (andThen (andThen (andThen (andThen (andThen (prelude env m)
       (startEtcd env)) (startKubeAPIServer env)) (startKubeControllerManager env))
       (startKubeScheduler env)) (startKubelet env)) (startKubeProxy env)"
  by (simp add: start_def prelude_def andThen_assoc)

lemma reached_prelude: "reached 0 env (prelude env initialState)"
  by (auto simp add: prelude_def createDirectories_def findBinaries_def reached_def
        initialState_def andThen_def act_def logFatal_def exitHook_def Let_def
        split: option.splits sum.splits)

lemma reached_start: "reached 6 env (start env initialState)"
proof -
  note s = reached_step
  have o: "startOrder ! 0 = EtcdH" "startOrder ! 1 = KubeAPIServerH"
      "startOrder ! 2 = ControllerManagerH" "startOrder ! 3 = KubeSchedulerH"
      "startOrder ! 4 = KubeletH" "startOrder ! 5 = KubeProxyH"
    by (simp_all add: startOrder_def)
  have "reached 1 env (andThen (prelude env initialState) (startEtcd env))"
    using s[OF reached_prelude, where f = "startEtcd env"] stage_startEtcd[of env] o by simp
  from s[OF this, where f = "startKubeAPIServer env"] stage_startKubeAPIServer[of env] o
  have "reached 2 env (andThen (andThen (prelude env initialState) (startEtcd env))
          (startKubeAPIServer env))" by (simp add: eval_nat_numeral)
  from s[OF this, where f = "startKubeControllerManager env"] stage_startKubeControllerManager[of env] o
  have "reached 3 env (andThen (andThen (andThen (prelude env initialState) (startEtcd env))
          (startKubeAPIServer env)) (startKubeControllerManager env))"
    by (simp add: eval_nat_numeral)
  from s[OF this, where f = "startKubeScheduler env"] stage_startKubeScheduler[of env] o
  have "reached 4 env (andThen (andThen (andThen (andThen (prelude env initialState)
          (startEtcd env)) (startKubeAPIServer env)) (startKubeControllerManager env))
          (startKubeScheduler env))"
    by (simp add: eval_nat_numeral)
  from s[OF this, where f = "startKubelet env"] stage_startKubelet[of env] o
  have "reached 5 env (andThen (andThen (andThen (andThen (andThen (prelude env initialState)
          (startEtcd env)) (startKubeAPIServer env)) (startKubeControllerManager env))
          (startKubeScheduler env)) (startKubelet env))"
    by (simp add: eval_nat_numeral)
  from s[OF this, where f = "startKubeProxy env"] stage_startKubeProxy[of env] o
  have "reached 6 env (andThen (andThen (andThen (andThen (andThen (andThen
          (prelude env initialState)
          (startEtcd env)) (startKubeAPIServer env)) (startKubeControllerManager env))
          (startKubeScheduler env)) (startKubelet env)) (startKubeProxy env))"
    by (simp add: eval_nat_numeral)
  then show ?thesis by (simp add: start_chain)
qed


subsection \<open>Start order\<close>

lemma nth_notin_take:
  "distinct xs \<Longrightarrow> j < length xs \<Longrightarrow> k \<le> j \<Longrightarrow> xs ! j \<notin> set (take k xs)"
  by (auto simp add: in_set_conv_nth nth_eq_iff_index_eq)

lemmas eval_defs = start_def createDirectories_def findBinaries_def startEtcd_def
  startKubeAPIServer_def startKubeControllerManager_def startKubeScheduler_def startKubelet_def
  startKubeProxy_def startService_def healthGate.simps andThen_def act_def register_def
  appendHandler_def logFatal_def exitHook_def initialState_def finalState_def goodEnv_def
  goodSvc_def deadSvc_def healthyMsg_def unhealthyMsg_def startOrder_def Let_def

text \<open>
  C5. \<^verbatim>\<open>start\<close> launches the services in the order etcd, API server, controller manager,
  scheduler, kubelet, kube-proxy: the launched services are always an initial segment of
  that order. When the health gate of one of them has no healthy probe within its eight
  attempts, \<^verbatim>\<open>start\<close> ends the program and no service behind it in the order is
  launched; when \<^verbatim>\<open>start\<close> returns, all six were launched and each gate was healthy.
\<close>

theorem start_fixed_order:
  "(\<exists>n\<le>6. startedOf (trace (finalState (start env initialState))) = take n startOrder)
   \<and> (\<forall>j<6. (\<forall>i<8. \<not> IsHealthy (probes (svc env (startOrder ! j)) i)) \<longrightarrow>
         (\<exists>a. start env initialState = Inl a)
         \<and> (\<forall>j'<6. j < j' \<longrightarrow>
               startOrder ! j' \<notin> set (startedOf (trace (finalState (start env initialState))))))
   \<and> (\<forall>m. start env initialState = Inr m \<longrightarrow>
         startedOf (trace m) = startOrder
         \<and> (\<forall>j<6. \<exists>i<8. IsHealthy (probes (svc env (startOrder ! j)) i)))"
proof (cases "start env initialState")
  case (Inr m)
  with reached_start[of env] have m: "startedOf (trace m) = take 6 startOrder"
      "\<forall>j<6. gateHealthy (svc env (startOrder ! j))"
    by (simp_all add: reached_def)
  have full: "take 6 startOrder = startOrder" by (simp add: startOrder_def)
  have "\<exists>n\<le>6. startedOf (trace m) = take n startOrder"
    using m(1) by (intro exI[of _ 6]) simp
  then show ?thesis using Inr m full by (auto simp add: finalState_def gateHealthy_iff)
next
  case (Inl a)
  obtain e mf where a: "a = (e, mf)" by (cases a)
  from reached_start[of env] Inl a obtain k k' where k:
      "k \<le> 6" "k' \<le> 6" "k \<le> k'" "k' \<le> Suc k"
      "startedOf (trace mf) = take k' startOrder"
      "\<forall>j<k. gateHealthy (svc env (startOrder ! j))"
    unfolding reached_def by auto
  have fs: "finalState (start env initialState) = mf"
    using Inl a by (simp add: finalState_def)
  have later: "startOrder ! j' \<notin> set (startedOf (trace mf))"
    if "j < 6" "\<forall>i<8. \<not> IsHealthy (probes (svc env (startOrder ! j)) i)" "j' < 6" "j < j'"
    for j j'
  proof -
    have "\<not> gateHealthy (svc env (startOrder ! j))" using that(2) by (simp add: gateHealthy_iff)
    then have "\<not> j < k" using k(6) by auto
    then have "k' \<le> j'" using k(4) that(4) by simp
    then show ?thesis
      using nth_notin_take[OF startOrder_distinct, of j' k'] that(3) k(5)
      by (simp add: startOrder_length)
  qed
  have "\<exists>n\<le>6. startedOf (trace mf) = take n startOrder"
    using k(2,5) by (intro exI[of _ k']) simp
  then show ?thesis using Inl fs later by auto
qed

theorem start_fixed_order_witness:
  "(\<exists>a. start apiDeadEnv initialState = Inl a)
   \<and> startedOf (trace (finalState (start apiDeadEnv initialState))) = [EtcdH, KubeAPIServerH]
   \<and> ControllerManagerH \<notin> set (startedOf (trace (finalState (start apiDeadEnv initialState))))
   \<and> KubeProxyH \<notin> set (startedOf (trace (finalState (start apiDeadEnv initialState))))
   \<and> startedOf (trace (finalState (start goodEnv initialState))) = startOrder"
proof -
  have dead: "\<forall>i<8. \<not> IsHealthy (probes (svc apiDeadEnv (startOrder ! 1)) i)"
    by (simp add: apiDeadEnv_def goodEnv_def deadSvc_def unhealthyMsg_def startOrder_def)
  note second = start_fixed_order[of apiDeadEnv, THEN conjunct2, THEN conjunct1, rule_format, of 1]
  have ab: "\<exists>a. start apiDeadEnv initialState = Inl a"
    using second dead by simp
  have later: "\<forall>j'<6. 1 < j' \<longrightarrow>
       startOrder ! j' \<notin> set (startedOf (trace (finalState (start apiDeadEnv initialState))))"
    using second dead by simp
  from later have "startOrder ! 2 \<notin> set (startedOf (trace (finalState (start apiDeadEnv initialState))))"
    "startOrder ! 5 \<notin> set (startedOf (trace (finalState (start apiDeadEnv initialState))))"
    by auto
  then have cm: "ControllerManagerH \<notin> set (startedOf (trace (finalState (start apiDeadEnv initialState))))"
    and kp: "KubeProxyH \<notin> set (startedOf (trace (finalState (start apiDeadEnv initialState))))"
    by (simp_all add: startOrder_def)
  have two: "startedOf (trace (finalState (start apiDeadEnv initialState))) = [EtcdH, KubeAPIServerH]"
    by (simp add: eval_defs apiDeadEnv_def)
  have good: "startedOf (trace (finalState (start goodEnv initialState))) = startOrder"
    by (simp add: eval_defs)
  show ?thesis using ab cm kp two good by simp
qed


subsection \<open>Fatal conditions and the exit of a service\<close>

lemma runningState_eval:
  "runningState =
     \<lparr>gracefulTerminationMode = True,
      serviceHandlers = [EtcdH, KubeAPIServerH, ControllerManagerH, KubeSchedulerH, KubeletH,
                         KubeProxyH],
      serviceList =
        [\<lparr>exitChan = [], healthChan = [], handler = EtcdH, name = ''etcd''\<rparr>,
         \<lparr>exitChan = [], healthChan = [], handler = KubeAPIServerH, name = ''kube-api''\<rparr>,
         \<lparr>exitChan = [], healthChan = [], handler = ControllerManagerH,
            name = ''kube-controller-manager''\<rparr>,
         \<lparr>exitChan = [], healthChan = [], handler = KubeSchedulerH, name = ''kube-scheduler''\<rparr>,
         \<lparr>exitChan = [], healthChan = [], handler = KubeletH, name = ''kubelet''\<rparr>,
         \<lparr>exitChan = [], healthChan = [], handler = KubeProxyH, name = ''kube-proxy''\<rparr>],
      trace =
        [CreateDirectories, CreateOrLoadCertificates, FindBinaries,
         Construct EtcdH, StartProc EtcdH, Sleep 1, Probe EtcdH,
         Construct KubeAPIServerH, StartProc KubeAPIServerH, Sleep 1, Probe KubeAPIServerH,
         CreateClientKubeconfig,
         Construct ControllerManagerH, StartProc ControllerManagerH, Sleep 1,
         Probe ControllerManagerH,
         Construct KubeSchedulerH, StartProc KubeSchedulerH, Sleep 1, Probe KubeSchedulerH,
         Construct KubeletH, StartProc KubeletH, Sleep 1, Probe KubeletH,
         Construct KubeProxyH, StartProc KubeProxyH, Sleep 1, Probe KubeProxyH,
         Stop KubeProxyH, NewKubeClient, WaitForNode, SignalNotify]\<rparr>"
  by (simp add: runningState_def waitUntilNodeReady_def eval_defs)


lemma checkService_loop_exit_absorbed:
  "gracefulTerminationMode m \<Longrightarrow>
     checkService_loop m h c (ExitEv s # evs) = checkService_loop m h c evs"
  by simp

text \<open>
  C1, evaluated on the code. In the state \<^verbatim>\<open>Run\<close> is in once the node is ready (before any
  signal), the flag \<^verbatim>\<open>gracefulTerminationMode\<close> is already set: the exit handler of a
  service only forwards the exit to the state channel, and the monitor that reads it
  there goes on with its loop. The exit of a service in this state does not end the
  program.
\<close>

theorem exit_while_running_is_absorbed:
  "gracefulTerminationMode runningState
   \<and> exitHandler ''etcd'' False (Some ''exit status 2'') runningState [] = Inr [False]
   \<and> checkService runningState etcdEntry [ExitEv False] = Inr 0
   \<and> checkService runningState etcdEntry [ExitEv False, HealthEv healthyMsg] = Inr 0"
  by (simp add: runningState_eval exitHandler_def checkService_def healthyMsg_def)


subsection \<open>Process handles\<close>

lemma cmdInv_Start:
  "CmdHandler_Start executable (NewCmdHandler b a) = (None, c) \<Longrightarrow> cmdInv c"
  by (auto simp add: CmdHandler_Start_def NewCmdHandler_def cmdInv_def split: if_splits)

lemma cmdInv_step: "cmdInv c \<Longrightarrow> cmdInv (cmdStep c ev)"
  by (cases ev)
     (auto simp add: cmdInv_def CmdHandler_Stop_def processEnds_def split: osProcess.splits)

lemma cmdInv_run: "cmdInv c \<Longrightarrow> cmdInv (cmdRun c evs)"
  unfolding cmdRun_def by (induction evs arbitrary: c) (simp_all add: cmdInv_step)

lemma cmdRun_append: "cmdRun c (xs @ ys) = cmdRun (cmdRun c xs) ys"
  by (simp add: cmdRun_def)

lemma cmdRun_unstarted:
  "\<not> started c \<Longrightarrow> process c = NoProcess \<Longrightarrow> cmdRun c evs = c"
  unfolding cmdRun_def
proof (induction evs)
  case Nil
  then show ?case by simp
next
  case (Cons ev evs)
  then have "cmdStep c ev = c"
    by (cases ev) (simp_all add: CmdHandler_Stop_def processEnds_def)
  with Cons show ?case by simp
qed

text \<open>
  C6. For every handle whose \<^verbatim>\<open>Start\<close> succeeded, and whatever calls of \<^verbatim>\<open>Stop\<close> and
  whatever end of the process follow: as long as the process runs the exit callback has
  not been called, and once the process has ended, for whatever reason, the callback has
  been called exactly once, with success true exactly when the process ended with exit
  code 0. A process that ends after \<^verbatim>\<open>Stop\<close> killed it reports failure.
\<close>

theorem exit_callback_exactly_once:
  "CmdHandler_Start executable (NewCmdHandler b a) = (None, c) \<longrightarrow>
     (process (cmdRun c evs) = Running \<and> exitCallbacks (cmdRun c evs) = []
      \<or> (\<exists>t. process (cmdRun c evs) = Reaped t
             \<and> exitCallbacks (cmdRun c evs) = [(t = ExitCode 0, t \<noteq> ExitCode 0)]))
     \<and> exitCallbacks (cmdRun c (evs @ [ProcessEnds t] @ evs')) =
         (if process (cmdRun c evs) = Running then [(t = ExitCode 0, t \<noteq> ExitCode 0)]
          else exitCallbacks (cmdRun c evs))"
proof
  assume st: "CmdHandler_Start executable (NewCmdHandler b a) = (None, c)"
  let ?c = "cmdRun c evs"
  have inv: "cmdInv ?c" using cmdInv_run[OF cmdInv_Start[OF st]] .
  then have one: "process ?c = Running \<and> exitCallbacks ?c = []
      \<or> (\<exists>t. process ?c = Reaped t \<and> exitCallbacks ?c = [(t = ExitCode 0, t \<noteq> ExitCode 0)])"
    by (auto simp add: cmdInv_def split: osProcess.splits)
  let ?d = "cmdRun ?c [ProcessEnds t]"
  have d: "cmdInv ?d" using cmdInv_run[OF inv] .
  have dproc: "process ?d = (if process ?c = Running then Reaped t else process ?c)"
    by (simp add: cmdRun_def processEnds_def)
  have dcb: "exitCallbacks ?d =
      (if process ?c = Running then [(t = ExitCode 0, t \<noteq> ExitCode 0)] else exitCallbacks ?c)"
    using inv by (auto simp add: cmdRun_def processEnds_def cmdInv_def split: osProcess.splits)
  have notrun: "process ?d \<noteq> Running"
    using dproc inv by (auto simp add: cmdInv_def split: osProcess.splits if_splits)
  have stay: "process x \<noteq> Running \<Longrightarrow> exitCallbacks (cmdRun x ys) = exitCallbacks x
                \<and> process (cmdRun x ys) \<noteq> Running" for x ys
    unfolding cmdRun_def
  proof (induction ys arbitrary: x)
    case Nil
    then show ?case by simp
  next
    case (Cons y ys)
    then have "cmdStep x y = x"
      by (cases y) (simp_all add: CmdHandler_Stop_def processEnds_def)
    with Cons show ?case by simp
  qed
  have "cmdRun c (evs @ [ProcessEnds t] @ evs') = cmdRun ?d evs'"
    by (simp only: cmdRun_append)
  then have "exitCallbacks (cmdRun c (evs @ [ProcessEnds t] @ evs')) = exitCallbacks ?d"
    using stay[OF notrun, of evs'] by simp
  with one dcb show "(process ?c = Running \<and> exitCallbacks ?c = []
      \<or> (\<exists>t. process ?c = Reaped t \<and> exitCallbacks ?c = [(t = ExitCode 0, t \<noteq> ExitCode 0)]))
     \<and> exitCallbacks (cmdRun c (evs @ [ProcessEnds t] @ evs')) =
         (if process ?c = Running then [(t = ExitCode 0, t \<noteq> ExitCode 0)]
          else exitCallbacks ?c)"
    by simp
qed

theorem exit_callback_exactly_once_witness:
  "CmdHandler_Start binSh (NewCmdHandler ''/bin/bash'' [''-c'', ''exit -1'']) =
     (None, (NewCmdHandler ''/bin/bash'' [''-c'', ''exit -1''])
              \<lparr>started := True, process := Running, backgroundTasks := 3\<rparr>)
   \<and> exitCallbacks (cmdRun ((NewCmdHandler ''/bin/bash'' [''-c'', ''exit -1''])
              \<lparr>started := True, process := Running, backgroundTasks := 3\<rparr>)
         [ProcessEnds (ExitCode 255)]) = [(False, True)]
   \<and> exitCallbacks (cmdRun ((NewCmdHandler ''/bin/bash'' [''-c'', ''exit -1''])
              \<lparr>started := True, process := Running, backgroundTasks := 3\<rparr>)
         [CallStop, ProcessEnds Signalled, CallStop]) = [(False, True)]
   \<and> exitCallbacks (cmdRun ((NewCmdHandler ''/bin/bash'' [''-c'', ''exit -1''])
              \<lparr>started := True, process := Running, backgroundTasks := 3\<rparr>)
         [ProcessEnds (ExitCode 0), ProcessEnds (ExitCode 1)]) = [(True, False)]"
proof -
  let ?n = "NewCmdHandler ''/bin/bash'' [''-c'', ''exit -1'']"
  let ?c = "?n\<lparr>started := True, process := Running, backgroundTasks := 3\<rparr>"
  have st: "CmdHandler_Start binSh ?n = (None, ?c)"
    by (simp add: CmdHandler_Start_def NewCmdHandler_def binSh_def)
  have r0: "process (cmdRun ?c []) = Running" by (simp add: cmdRun_def)
  have r1: "process (cmdRun ?c [CallStop]) = Running"
    by (simp add: cmdRun_def CmdHandler_Stop_def NewCmdHandler_def)
  have a: "exitCallbacks (cmdRun ?c [ProcessEnds (ExitCode 255)]) = [(False, True)]"
    using exit_callback_exactly_once[of binSh "''/bin/bash''" "[''-c'', ''exit -1'']" ?c "[]"
        "ExitCode 255" "[]"] st r0 by simp
  have b: "exitCallbacks (cmdRun ?c [CallStop, ProcessEnds Signalled, CallStop]) = [(False, True)]"
    using exit_callback_exactly_once[of binSh "''/bin/bash''" "[''-c'', ''exit -1'']" ?c
        "[CallStop]" Signalled "[CallStop]"] st r1 by simp
  have c: "exitCallbacks (cmdRun ?c [ProcessEnds (ExitCode 0), ProcessEnds (ExitCode 1)])
        = [(True, False)]"
    using exit_callback_exactly_once[of binSh "''/bin/bash''" "[''-c'', ''exit -1'']" ?c "[]"
        "ExitCode 0" "[ProcessEnds (ExitCode 1)]"] st r0 by simp
  show ?thesis using st a b c by simp
qed

text \<open>
  C7. For every handle whose binary cannot be located or executed, \<^verbatim>\<open>Start\<close> returns an
  error at once and leaves the handle as it was: no process, no background task; and
  whatever happens afterwards, the exit callback is never called.
\<close>

theorem start_failure_is_synchronous:
  "\<not> executable b \<longrightarrow>
     (\<exists>err. CmdHandler_Start executable (NewCmdHandler b a) = (Some err, NewCmdHandler b a))
     \<and> backgroundTasks (snd (CmdHandler_Start executable (NewCmdHandler b a))) = 0
     \<and> process (snd (CmdHandler_Start executable (NewCmdHandler b a))) = NoProcess
     \<and> exitCallbacks (cmdRun (snd (CmdHandler_Start executable (NewCmdHandler b a))) evs) = []"
proof
  assume ne: "\<not> executable b"
  then have st: "CmdHandler_Start executable (NewCmdHandler b a)
      = (Some ''no such file or directory'', NewCmdHandler b a)"
    by (simp add: CmdHandler_Start_def NewCmdHandler_def)
  have "cmdRun (NewCmdHandler b a) evs = NewCmdHandler b a"
    by (rule cmdRun_unstarted) (simp_all add: NewCmdHandler_def)
  then show "(\<exists>err. CmdHandler_Start executable (NewCmdHandler b a) = (Some err, NewCmdHandler b a))
     \<and> backgroundTasks (snd (CmdHandler_Start executable (NewCmdHandler b a))) = 0
     \<and> process (snd (CmdHandler_Start executable (NewCmdHandler b a))) = NoProcess
     \<and> exitCallbacks (cmdRun (snd (CmdHandler_Start executable (NewCmdHandler b a))) evs) = []"
    using st by (simp add: NewCmdHandler_def)
qed

theorem start_failure_is_synchronous_witness:
  "fst (CmdHandler_Start binSh (NewCmdHandler ''/bin/FooBarBazBash'' [''-c'', ''echo test'']))
     \<noteq> None
   \<and> backgroundTasks
       (snd (CmdHandler_Start binSh (NewCmdHandler ''/bin/FooBarBazBash'' [''-c'', ''echo test''])))
     = 0
   \<and> exitCallbacks (cmdRun
       (snd (CmdHandler_Start binSh (NewCmdHandler ''/bin/FooBarBazBash'' [''-c'', ''echo test''])))
       [CallStop, ProcessEnds (ExitCode 0)]) = []"
proof -
  have "\<not> binSh ''/bin/FooBarBazBash''" by (simp add: binSh_def)
  with start_failure_is_synchronous[of binSh "''/bin/FooBarBazBash''" "[''-c'', ''echo test'']"
      "[CallStop, ProcessEnds (ExitCode 0)]"]
  show ?thesis by auto
qed

text \<open>
  C8. \<^verbatim>\<open>Stop\<close> is idempotent. On the kubelet handler, a second \<^verbatim>\<open>stop\<close> changes nothing and
  \<^verbatim>\<open>stop\<close> on a handler that was never started does nothing. On a process handle, a second
  \<^verbatim>\<open>Stop\<close> changes nothing, and \<^verbatim>\<open>Stop\<close> on a handle that was never started, was stopped
  before or whose process has ended does nothing. For a running handle, whatever
  sequence of stops and process ends follows, at most one termination request is sent
  and the exit callback is called at most once; after two stops exactly one request was
  sent, and when the process then ends the callback has been called exactly once.
\<close>

theorem stop_is_idempotent:
  "KubeletHandler_stop (KubeletHandler_stop handler') = KubeletHandler_stop handler'
   \<and> (cmd handler' = None \<longrightarrow> KubeletHandler_stop handler' = handler')
   \<and> CmdHandler_Stop (CmdHandler_Stop c) = CmdHandler_Stop c
   \<and> (\<not> started c \<or> stopped c \<or> process c \<noteq> Running \<longrightarrow> CmdHandler_Stop c = c)
   \<and> (CmdHandler_Start executable (NewCmdHandler b a) = (None, c0) \<longrightarrow>
        killsSent (cmdRun c0 evs) \<le> 1
        \<and> length (exitCallbacks (cmdRun c0 evs)) \<le> 1
        \<and> killsSent (CmdHandler_Stop (CmdHandler_Stop c0)) = 1
        \<and> exitCallbacks (cmdRun c0 ([CallStop, CallStop, ProcessEnds t] @ evs))
            = [(t = ExitCode 0, t \<noteq> ExitCode 0)])"
proof -
  have cs: "CmdHandler_Stop (CmdHandler_Stop c) = CmdHandler_Stop c" for c
    by (simp add: CmdHandler_Stop_def)
  have ks: "KubeletHandler_stop (KubeletHandler_stop handler') = KubeletHandler_stop handler'"
    by (cases "cmd handler'") (simp_all add: KubeletHandler_stop_def cs)
  have kn: "cmd handler' = None \<longrightarrow> KubeletHandler_stop handler' = handler'"
    by (simp add: KubeletHandler_stop_def)
  have noop: "\<not> started c \<or> stopped c \<or> process c \<noteq> Running \<longrightarrow> CmdHandler_Stop c = c"
    by (auto simp add: CmdHandler_Stop_def)
  have run: "killsSent (cmdRun c0 evs) \<le> 1
        \<and> length (exitCallbacks (cmdRun c0 evs)) \<le> 1
        \<and> killsSent (CmdHandler_Stop (CmdHandler_Stop c0)) = 1
        \<and> exitCallbacks (cmdRun c0 ([CallStop, CallStop, ProcessEnds t] @ evs))
            = [(t = ExitCode 0, t \<noteq> ExitCode 0)]"
    if st: "CmdHandler_Start executable (NewCmdHandler b a) = (None, c0)"
  proof -
    have c0: "c0 = (NewCmdHandler b a)\<lparr>started := True, process := Running, backgroundTasks := 3\<rparr>"
      using st by (auto simp add: CmdHandler_Start_def split: if_splits)
    have inv: "cmdInv (cmdRun c0 xs)" for xs
      using cmdInv_run[OF cmdInv_Start[OF st]] .
    have k: "killsSent (cmdRun c0 evs) \<le> 1"
      using inv[of evs] by (simp add: cmdInv_def)
    have l: "length (exitCallbacks (cmdRun c0 evs)) \<le> 1"
      using inv[of evs] by (auto simp add: cmdInv_def split: osProcess.splits)
    have two: "killsSent (CmdHandler_Stop (CmdHandler_Stop c0)) = 1"
      by (simp add: c0 CmdHandler_Stop_def NewCmdHandler_def)
    let ?d = "cmdRun c0 [CallStop, CallStop, ProcessEnds t]"
    have d: "process ?d = Reaped t"
      by (simp add: c0 cmdRun_def CmdHandler_Stop_def processEnds_def NewCmdHandler_def)
    have stay: "process x \<noteq> Running \<Longrightarrow> cmdRun x ys = x" for x ys
      unfolding cmdRun_def
    proof (induction ys)
      case Nil
      then show ?case by simp
    next
      case (Cons y ys)
      then have "cmdStep x y = x"
        by (cases y) (simp_all add: CmdHandler_Stop_def processEnds_def)
      with Cons show ?case by simp
    qed
    have "cmdRun c0 ([CallStop, CallStop, ProcessEnds t] @ evs) = cmdRun ?d evs"
      by (simp only: cmdRun_append)
    also have "\<dots> = ?d" using stay[of ?d evs] d by simp
    finally have "exitCallbacks (cmdRun c0 ([CallStop, CallStop, ProcessEnds t] @ evs))
        = exitCallbacks ?d" by simp
    also have "\<dots> = [(t = ExitCode 0, t \<noteq> ExitCode 0)]"
      by (simp add: c0 cmdRun_def CmdHandler_Stop_def processEnds_def NewCmdHandler_def)
    finally show ?thesis using k l two by simp
  qed
  show ?thesis using ks kn cs noop run by blast
qed

theorem stop_is_idempotent_witness:
  "KubeletHandler_stop newKubelet = newKubelet
   \<and> fst (KubeletHandler_Start binSh simpleJoin (\<lambda>p. True) newKubelet) = None
   \<and> KubeletHandler_stop (KubeletHandler_stop (snd (KubeletHandler_Start binSh simpleJoin (\<lambda>p. True) newKubelet)))
       = KubeletHandler_stop (snd (KubeletHandler_Start binSh simpleJoin (\<lambda>p. True) newKubelet))
   \<and> map_option killsSent
       (cmd (KubeletHandler_stop (KubeletHandler_stop
          (snd (KubeletHandler_Start binSh simpleJoin (\<lambda>p. True) newKubelet))))) = Some 1
   \<and> exitCallbacks (cmdRun ((NewCmdHandler ''/bin/bash'' [''-c'', ''sleep 120''])
              \<lparr>started := True, process := Running, backgroundTasks := 3\<rparr>)
         [CallStop, CallStop, ProcessEnds Signalled]) = [(False, True)]"
proof -
  let ?n = "NewCmdHandler ''/bin/bash'' [''-c'', ''sleep 120'']"
  let ?c = "?n\<lparr>started := True, process := Running, backgroundTasks := 3\<rparr>"
  let ?k = "snd (KubeletHandler_Start binSh simpleJoin (\<lambda>p. True) newKubelet)"
  have st: "CmdHandler_Start binSh ?n = (None, ?c)"
    by (simp add: CmdHandler_Start_def NewCmdHandler_def binSh_def)
  note inst = stop_is_idempotent[where handler' = newKubelet and executable = binSh
      and b = "''/bin/bash''" and a = "[''-c'', ''sleep 120'']" and ?c0.0 = ?c and evs = "[]"
      and t = Signalled]
  have a: "KubeletHandler_stop newKubelet = newKubelet"
    using inst by (simp add: newKubelet_def)
  have b: "fst (KubeletHandler_Start binSh simpleJoin (\<lambda>p. True) newKubelet) = None"
    by (simp add: KubeletHandler_Start_def CmdHandler_Start_def NewCmdHandler_def binSh_def
          newKubelet_def Let_def)
  have c: "KubeletHandler_stop (KubeletHandler_stop ?k) = KubeletHandler_stop ?k"
    using stop_is_idempotent[where handler' = ?k] by simp
  have d: "map_option killsSent (cmd (KubeletHandler_stop (KubeletHandler_stop ?k))) = Some 1"
    by (simp add: KubeletHandler_Start_def KubeletHandler_stop_def CmdHandler_Start_def
          CmdHandler_Stop_def NewCmdHandler_def binSh_def newKubelet_def Let_def)
  have e: "exitCallbacks (cmdRun ?c [CallStop, CallStop, ProcessEnds Signalled]) = [(False, True)]"
    using inst st by simp
  show ?thesis using a b c d e by simp
qed


subsection \<open>Shutdown\<close>










subsection \<open>Fatal conditions and the handlers stopped\<close>





end
